theory Spec2Isabelle
  imports
    Main
    "HOL-Library.Monad_Syntax"
    "HOL-Library.Char_ord"
    "HOL-Library.List_Lexorder"
begin

section \<open>The tic-tac-toe game state of game-state.go\<close>

text \<open>
  The source is one file, \<^verbatim>\<open>game-state.go\<close>. It keeps a board of
  \<^verbatim>\<open>boardSize * boardSize\<close> pieces, per-player counts of pieces in every row and
  column and in the two diagonals, and the turn. The embedding below follows it function
  by function.

  Three readings of the source are fixed here, since the file does not compile as it is:
  \<^item> The struct declares the fields \<^verbatim>\<open>currPiece\<close>, \<^verbatim>\<open>currPlayer\<close> and
    \<^verbatim>\<open>totalPieces\<close>; the functions also write \<^verbatim>\<open>game.currentPiece\<close>,
    \<^verbatim>\<open>game.currentPlayer\<close> and \<^verbatim>\<open>game.totalCount\<close>. The struct has one field
    of each role, so each of these names is read as the declared field.
  \<^item> \<^verbatim>\<open>*board[x][y]\<close> is read as the cell \<^verbatim>\<open>(x, y)\<close> of the board that
    \<^verbatim>\<open>game.board\<close> points to. A game owns its board (\<^verbatim>\<open>startGame\<close> allocates it),
    so the board is a value inside the game record.
  \<^item> The registry \<^verbatim>\<open>currentGames\<close> is declared without an initial value; the
    map in which \<^verbatim>\<open>startGame\<close> registers the game is an argument of the model.
    The Go map holds a pointer to the game; the model stores the game as it is when it
    is registered, and no property below reads the registry.

  Go's \<^verbatim>\<open>int\<close> is modelled by \<^typ>\<open>int\<close>: the coordinates are compared with
  \<^verbatim>\<open>0\<close> and \<^verbatim>\<open>boardSize\<close> before they index anything, and the counters are
  bounded by the number of cells (nine pieces at most are ever placed), so no arithmetic
  comes near the width of a machine integer.
\<close>

subsection \<open>Data\<close>

definition boardSize :: int where
  "boardSize = 3"

text \<open>
  \<^verbatim>\<open>O\<close> is player 1's piece, \<^verbatim>\<open>X\<close> player 2's piece, \<^verbatim>\<open>B\<close> the blank.
  \<open>O\<close> is the composition of relations in HOL, so the three constructors carry a suffix.
  \<^verbatim>\<open>O\<close> is \<^verbatim>\<open>iota = 0\<close>, the zero value of the type.
\<close>

datatype Piece = O_Piece | X_Piece | B_Piece

type_synonym Board = "Piece list list"

record PlayerCounts =
  rows :: "int list"
  cols :: "int list"
  diags :: "int list"

datatype GameResult = OWin | XWin | Tie | Pending

record GameState =
  board :: Board
  currPiece :: Piece
  currPlayer :: string
  nextPlayer :: string
  oCounts :: PlayerCounts
  xCounts :: PlayerCounts
  totalPieces :: int

text \<open>
  The three errors of \<^verbatim>\<open>makeMove\<close> are \<^verbatim>\<open>fmt.Errorf\<close> values; each constructor
  stands for one format string and carries its arguments:
  \<^verbatim>\<open>"It's not player %s's turn"\<close>, \<^verbatim>\<open>"Board position %d %d is out of range."\<close>,
  \<^verbatim>\<open>"Board position %d %d is not empty."\<close>.
\<close>

datatype error = WrongTurn string | OutOfRange int int | CellOccupied int int

text \<open>
  Arrays of fixed size are lists; a game whose lists have the sizes of the Go types is
  well-shaped. Go panics on an index out of range: reading and writing return
  \<open>None\<close> there.
\<close>

definition arrayGet :: "'a list \<Rightarrow> int \<Rightarrow> 'a option" where
  "arrayGet xs i = (if 0 \<le> i \<and> i < int (length xs) then Some (xs ! nat i) else None)"

definition arraySet :: "'a list \<Rightarrow> int \<Rightarrow> 'a \<Rightarrow> 'a list option" where
  "arraySet xs i v = (if 0 \<le> i \<and> i < int (length xs) then Some (xs[nat i := v]) else None)"

definition increment :: "int list \<Rightarrow> int \<Rightarrow> int list option" where
  "increment xs i = do { n \<leftarrow> arrayGet xs i; arraySet xs i (n + 1) }"

definition wellShapedCounts :: "PlayerCounts \<Rightarrow> bool" where
  "wellShapedCounts c =
     (length (rows c) = nat boardSize \<and> length (cols c) = nat boardSize \<and> length (diags c) = 2)"

definition wellShaped :: "GameState \<Rightarrow> bool" where
  "wellShaped game =
     (length (board game) = nat boardSize
      \<and> list_all (\<lambda>row. length row = nat boardSize) (board game)
      \<and> wellShapedCounts (oCounts game) \<and> wellShapedCounts (xCounts game))"

subsection \<open>The registry key\<close>

definition getUserPairKey :: "string \<Rightarrow> string \<Rightarrow> string" where
  "getUserPairKey userA userB =
     (if userA \<le> userB then userA @ ''$$'' @ userB else userB @ ''$$'' @ userA)"

subsection \<open>Starting a game\<close>

text \<open>The two nested loops of \<^verbatim>\<open>initBoard\<close>, over \<^verbatim>\<open>i\<close> and over \<^verbatim>\<open>j\<close>.\<close>

definition initBoard :: "Board \<Rightarrow> Board" where
  "initBoard b =
     fold (\<lambda>i b1. fold (\<lambda>j b2. b2[i := (b2 ! i)[j := B_Piece]]) [0 ..< nat boardSize] b1)
       [0 ..< nat boardSize] b"

text \<open>The zero values of \<^verbatim>\<open>Board\<close> and of \<^verbatim>\<open>PlayerCounts\<close>.\<close>

definition zeroBoard :: Board where
  "zeroBoard = replicate (nat boardSize) (replicate (nat boardSize) O_Piece)"

definition zeroCounts :: PlayerCounts where
  "zeroCounts =
     \<lparr>rows = replicate (nat boardSize) 0, cols = replicate (nat boardSize) 0,
      diags = replicate 2 0\<rparr>"

text \<open>
  The literal \<^verbatim>\<open>GameState{board: &board, currPiece: O, currPlayer: userA}\<close> names three
  fields; the others take their zero values, \<^verbatim>\<open>nextPlayer\<close> the empty string.
  The result is the new game and the registry with the game under the pair's key.
\<close>

definition startGame ::
  "string \<Rightarrow> string \<Rightarrow> (string \<rightharpoonup> GameState) \<Rightarrow> GameState \<times> (string \<rightharpoonup> GameState)" where
  "startGame userA userB currentGames =
     (let game = \<lparr>board = initBoard zeroBoard, currPiece = O_Piece, currPlayer = userA,
                  nextPlayer = '''', oCounts = zeroCounts, xCounts = zeroCounts,
                  totalPieces = 0\<rparr>;
          key = getUserPairKey userA userB
      in (game, currentGames(key \<mapsto> game)))"

definition clearGame ::
  "string \<Rightarrow> string \<Rightarrow> (string \<rightharpoonup> GameState) \<Rightarrow> (string \<rightharpoonup> GameState)" where
  "clearGame userA userB currentGames = currentGames(getUserPairKey userA userB := None)"

subsection \<open>Diagonals and the end of the game\<close>

definition getDiag :: "int \<Rightarrow> int \<Rightarrow> int" where
  "getDiag x y =
     (let last = boardSize - 1
      in if x = 0 \<and> y = 0 \<or> x = last \<and> y = last then 0
         else if x = last \<and> y = 0 \<or> x = 0 \<and> y = last then 1
         else - 1)"

text \<open>
  \<^verbatim>\<open>diagWin := diag >= 0 && counts.diags[diag] == boardSize\<close>: the array is read only
  when \<^verbatim>\<open>diag >= 0\<close>.
\<close>

definition diagWin :: "PlayerCounts \<Rightarrow> int \<Rightarrow> bool option" where
  "diagWin counts diag =
     (if diag \<ge> 0 then do { n \<leftarrow> arrayGet (diags counts) diag; Some (n = boardSize) }
      else Some False)"

text \<open>
  The branch of player \<^verbatim>\<open>X\<close> reads \<^verbatim>\<open>cols[x]\<close> where the branch of player
  \<^verbatim>\<open>O\<close> reads \<^verbatim>\<open>cols[y]\<close>. The three conditions are computed before they are
  combined, so each array read happens.
\<close>

definition checkGameOver :: "GameState \<Rightarrow> int \<Rightarrow> int \<Rightarrow> GameResult option" where
  "checkGameOver game x y =
     (let full = (if totalPieces game = boardSize * boardSize then Tie else Pending)
      in if currPiece game = O_Piece then
           do {
             dWin \<leftarrow> diagWin (oCounts game) (getDiag x y);
             r \<leftarrow> arrayGet (rows (oCounts game)) x;
             c \<leftarrow> arrayGet (cols (oCounts game)) y;
             Some (if dWin \<or> r = boardSize \<or> c = boardSize then OWin else full)
           }
         else
           do {
             dWin \<leftarrow> diagWin (xCounts game) (getDiag x y);
             r \<leftarrow> arrayGet (rows (xCounts game)) x;
             c \<leftarrow> arrayGet (cols (xCounts game)) x;
             Some (if dWin \<or> r = boardSize \<or> c = boardSize then XWin else full)
           })"

subsection \<open>Making a move\<close>

text \<open>
  \<^verbatim>\<open>rows[x]++; cols[y]++; if diag >= 0 { diags[diag]++ }\<close> on one player's counts.
\<close>

definition countPiece :: "PlayerCounts \<Rightarrow> int \<Rightarrow> int \<Rightarrow> PlayerCounts option" where
  "countPiece counts x y =
     do {
       rs \<leftarrow> increment (rows counts) x;
       cs \<leftarrow> increment (cols counts) y;
       ds \<leftarrow> (if getDiag x y \<ge> 0 then increment (diags counts) (getDiag x y)
               else Some (diags counts));
       Some (counts\<lparr>rows := rs, cols := cs, diags := ds\<rparr>)
     }"

text \<open>
  \<^verbatim>\<open>makeMove\<close> returns the pair \<^verbatim>\<open>(err, GameResult)\<close> and changes the game through
  its pointer: the model returns the pair and the game after the call. \<open>None\<close> is a
  panic of the Go runtime.
\<close>

definition makeMove ::
  "GameState \<Rightarrow> string \<Rightarrow> int \<Rightarrow> int \<Rightarrow> ((error option \<times> GameResult) \<times> GameState) option" where
  "makeMove game user x y =
     (if user \<noteq> currPlayer game then Some ((Some (WrongTurn user), Pending), game)
      else if x < 0 \<or> x \<ge> boardSize \<or> y < 0 \<or> y \<ge> boardSize then
        Some ((Some (OutOfRange x y), Pending), game)
      else
        do {
          row \<leftarrow> arrayGet (board game) x;
          cell \<leftarrow> arrayGet row y;
          if cell \<noteq> B_Piece then Some ((Some (CellOccupied x y), Pending), game)
          else
            do {
              row' \<leftarrow> arraySet row y (currPiece game);
              board' \<leftarrow> arraySet (board game) x row';
              let game1 = game\<lparr>board := board', totalPieces := totalPieces game + 1\<rparr>;
              game2 \<leftarrow>
                (if currPiece game1 = O_Piece then
                   do { c \<leftarrow> countPiece (oCounts game1) x y; Some (game1\<lparr>oCounts := c\<rparr>) }
                 else
                   do { c \<leftarrow> countPiece (xCounts game1) x y; Some (game1\<lparr>xCounts := c\<rparr>) });
              gameResult \<leftarrow> checkGameOver game2 x y;
              if gameResult \<noteq> Pending then Some ((None, gameResult), game2)
              else
                Some ((None, Pending),
                  game2\<lparr>currPiece := (if currPiece game2 = O_Piece then X_Piece else O_Piece),
                        currPlayer := nextPlayer game2,
                        nextPlayer := user\<rparr>)
            }
        })"

text \<open>
  A caller's sequence of \<^verbatim>\<open>makeMove\<close> calls on one game: the results of the calls in
  order, and the game after the last one.
\<close>

fun makeMoves ::
  "GameState \<Rightarrow> (string \<times> int \<times> int) list
     \<Rightarrow> ((error option \<times> GameResult) list \<times> GameState) option" where
  "makeMoves game [] = Some ([], game)"
| "makeMoves game ((user, x, y) # calls) =
     do {
       (res, game1) \<leftarrow> makeMove game user x y;
       (ress, game2) \<leftarrow> makeMoves game1 calls;
       Some (res # ress, game2)
     }"

subsection \<open>The full scan of the specification\<close>

text \<open>
  The specification compares the counters with a scan of the whole board: every row,
  every column and both diagonals, looking for a line whose \<^verbatim>\<open>boardSize\<close> cells all hold
  one player's piece. This definition follows the specification's words, not the source
  (which has no such scan). Cell \<^verbatim>\<open>(x, y)\<close> is \<^verbatim>\<open>board[x][y]\<close>: row \<^verbatim>\<open>x\<close> is the
  list \<open>b ! x\<close>, column \<^verbatim>\<open>y\<close> takes the element \<^verbatim>\<open>y\<close> of every row.
\<close>

definition boardLines :: "Board \<Rightarrow> Piece list list" where
  "boardLines b =
     (let n = nat boardSize
      in b @ map (\<lambda>j. map (\<lambda>i. b ! i ! j) [0 ..< n]) [0 ..< n]
           @ [map (\<lambda>i. b ! i ! i) [0 ..< n], map (\<lambda>i. b ! i ! (n - 1 - i)) [0 ..< n]])"

definition hasLine :: "Board \<Rightarrow> Piece \<Rightarrow> bool" where
  "hasLine b p = list_ex (\<lambda>line. list_all (\<lambda>c. c = p) line) (boardLines b)"

definition scanWinner :: "Board \<Rightarrow> GameResult option" where
  "scanWinner b =
     (if hasLine b O_Piece then Some OWin else if hasLine b X_Piece then Some XWin else None)"

subsection \<open>Measures used in the properties\<close>

text \<open>The number of cells of a board that hold a piece, and the number of accepted calls
  (those that return a nil error) among the results of a sequence of calls.\<close>

definition nonBlank :: "Board \<Rightarrow> nat" where
  "nonBlank b = length (filter (\<lambda>c. c \<noteq> B_Piece) (concat b))"

definition successes :: "(error option \<times> GameResult) list \<Rightarrow> nat" where
  "successes ress = length (filter (\<lambda>r. fst r = None) ress)"

text \<open>The pieces of one player on the cells that \<^verbatim>\<open>getDiag\<close> sends to diagonal
  \<^verbatim>\<open>0\<close> and to diagonal \<^verbatim>\<open>1\<close>.\<close>

definition onCorners :: "Board \<Rightarrow> Piece \<Rightarrow> int list" where
  "onCorners b p =
     [of_bool (b ! 0 ! 0 = p) + of_bool (b ! 2 ! 2 = p),
      of_bool (b ! 2 ! 0 = p) + of_bool (b ! 0 ! 2 = p)]"

definition corners :: "(int \<times> int) set" where
  "corners = {(0, 0), (2, 2), (2, 0), (0, 2)}"

section \<open>Lemmas about the operations\<close>

subsection \<open>Arrays and counters\<close>

lemma arraySet_in_range:
  "0 \<le> i \<Longrightarrow> nat i < length xs \<Longrightarrow> arraySet xs i v = Some (xs[nat i := v])"
  by (simp add: arraySet_def nat_less_iff)

lemma arrayGet_in_range:
  "0 \<le> i \<Longrightarrow> nat i < length xs \<Longrightarrow> arrayGet xs i = Some (xs ! nat i)"
  by (simp add: arrayGet_def nat_less_iff)

lemma increment_in_range:
  "0 \<le> i \<Longrightarrow> i < int (length xs) \<Longrightarrow> increment xs i = Some (xs[nat i := xs ! nat i + 1])"
  by (simp add: increment_def arrayGet_def arraySet_def)

lemma getDiag_range: "getDiag x y = 0 \<or> getDiag x y = 1 \<or> getDiag x y = - 1"
  by (simp add: getDiag_def Let_def)

lemma in_range_cases: "0 \<le> x \<Longrightarrow> x < boardSize \<Longrightarrow> x = 0 \<or> x = 1 \<or> x = 2"
  by (simp add: boardSize_def) arith

lemma getDiag_corners: "getDiag x y \<ge> 0 \<longleftrightarrow> (x, y) \<in> corners"
  by (auto simp: getDiag_def corners_def boardSize_def Let_def)

lemma countPiece_in_range:
  assumes "wellShapedCounts c" "0 \<le> x" "x < boardSize" "0 \<le> y" "y < boardSize"
  shows "\<exists>c'. countPiece c x y = Some c' \<and> wellShapedCounts c'"
  using assms getDiag_range [of x y]
  by (auto simp: countPiece_def wellShapedCounts_def increment_in_range)

lemma countPiece_shape:
  assumes "countPiece c x y = Some c'" "wellShapedCounts c"
  shows "wellShapedCounts c'"
  using assms
  by (auto simp: countPiece_def increment_def arraySet_def wellShapedCounts_def
      bind_eq_Some_conv split: if_splits)

lemma countPiece_diags:
  assumes "countPiece c x y = Some c'"
  shows "diags c' =
     (if getDiag x y \<ge> 0
      then (diags c)[nat (getDiag x y) := diags c ! nat (getDiag x y) + 1]
      else diags c)"
  using assms
  by (auto simp: countPiece_def increment_def arrayGet_def arraySet_def bind_eq_Some_conv
      split: if_splits)

lemma diagWin_in_range:
  "wellShapedCounts c \<Longrightarrow> \<exists>w. diagWin c (getDiag x y) = Some w"
  using getDiag_range [of x y]
  by (auto simp: diagWin_def wellShapedCounts_def arrayGet_def)

lemma checkGameOver_in_range:
  assumes "wellShaped game" "0 \<le> x" "x < boardSize" "0 \<le> y" "y < boardSize"
  shows "\<exists>r. checkGameOver game x y = Some r"
proof -
  from assms have o: "wellShapedCounts (oCounts game)" and xc: "wellShapedCounts (xCounts game)"
    by (simp_all add: wellShaped_def)
  obtain wo wx where w: "diagWin (oCounts game) (getDiag x y) = Some wo"
      "diagWin (xCounts game) (getDiag x y) = Some wx"
    using diagWin_in_range [OF o] diagWin_in_range [OF xc] by blast
  from o xc assms show ?thesis
    by (simp add: checkGameOver_def Let_def w arrayGet_def wellShapedCounts_def)
qed

lemma list3: "length xs = nat boardSize \<Longrightarrow> \<exists>a b c. xs = [a, b, c]"
  by (auto simp: boardSize_def numeral_3_eq_3 length_Suc_conv)

lemma wellShaped_board:
  assumes "wellShaped game"
  shows "\<exists>a0 a1 a2 b0 b1 b2 c0 c1 c2. board game = [[a0, a1, a2], [b0, b1, b2], [c0, c1, c2]]"
proof -
  from assms obtain r0 r1 r2 where b: "board game = [r0, r1, r2]"
    using list3 [of "board game"] by (auto simp: wellShaped_def)
  with assms have "length r0 = nat boardSize" "length r1 = nat boardSize"
      "length r2 = nat boardSize"
    by (simp_all add: wellShaped_def)
  then show ?thesis using b list3 [of r0] list3 [of r1] list3 [of r2] by auto
qed

lemma wellShaped_cell:
  assumes "wellShaped game" "0 \<le> x" "x < boardSize" "0 \<le> y" "y < boardSize"
  shows "arrayGet (board game) x = Some (board game ! nat x)"
    and "arrayGet (board game ! nat x) y = Some (board game ! nat x ! nat y)"
proof -
  from assms have lx: "nat x < length (board game)"
    by (simp add: wellShaped_def)
  with assms show "arrayGet (board game) x = Some (board game ! nat x)"
    by (simp add: arrayGet_def)
  from assms lx have "length (board game ! nat x) = nat boardSize"
    by (simp add: wellShaped_def list_all_length)
  with assms show "arrayGet (board game ! nat x) y = Some (board game ! nat x ! nat y)"
    by (simp add: arrayGet_def)
qed

subsection \<open>The new game\<close>

lemma startGame_value:
  "fst (startGame userA userB currentGames) =
     \<lparr>board = [[B_Piece, B_Piece, B_Piece], [B_Piece, B_Piece, B_Piece],
               [B_Piece, B_Piece, B_Piece]],
      currPiece = O_Piece, currPlayer = userA, nextPlayer = '''',
      oCounts = \<lparr>rows = [0, 0, 0], cols = [0, 0, 0], diags = [0, 0]\<rparr>,
      xCounts = \<lparr>rows = [0, 0, 0], cols = [0, 0, 0], diags = [0, 0]\<rparr>,
      totalPieces = 0\<rparr>"
  by (simp add: startGame_def initBoard_def zeroBoard_def zeroCounts_def boardSize_def Let_def
      numeral_3_eq_3 numeral_2_eq_2)

lemma startGame_wellShaped: "wellShaped (fst (startGame userA userB currentGames))"
  by (simp add: startGame_value wellShaped_def wellShapedCounts_def boardSize_def)

subsection \<open>The four outcomes of a call\<close>

lemma makeMove_wrong_turn:
  "user \<noteq> currPlayer game \<Longrightarrow>
     makeMove game user x y = Some ((Some (WrongTurn user), Pending), game)"
  by (simp add: makeMove_def)

lemma makeMove_out_of_range:
  "user = currPlayer game \<Longrightarrow> x < 0 \<or> x \<ge> boardSize \<or> y < 0 \<or> y \<ge> boardSize \<Longrightarrow>
     makeMove game user x y = Some ((Some (OutOfRange x y), Pending), game)"
  by (simp add: makeMove_def)

lemma makeMove_occupied:
  assumes "wellShaped game" "user = currPlayer game"
    and "0 \<le> x" "x < boardSize" "0 \<le> y" "y < boardSize"
    and "board game ! nat x ! nat y \<noteq> B_Piece"
  shows "makeMove game user x y = Some ((Some (CellOccupied x y), Pending), game)"
  using assms wellShaped_cell [of game x y] by (simp add: makeMove_def)

lemma makeMove_refused:
  "makeMove game user x y = Some ((Some e, res), game') \<Longrightarrow> game' = game \<and> res = Pending"
  by (auto simp: makeMove_def Let_def split: if_splits Option.bind_splits)

text \<open>What an accepted call does to the game: \<open>game2\<close> is the game on which
  \<^verbatim>\<open>checkGameOver\<close> runs, after the piece is placed and counted.\<close>

lemma makeMove_accepted:
  assumes mv: "makeMove game user x y = Some ((None, res), game')"
  shows "\<exists>c game2.
       user = currPlayer game \<and> 0 \<le> x \<and> x < boardSize \<and> 0 \<le> y \<and> y < boardSize
     \<and> nat x < length (board game) \<and> nat y < length (board game ! nat x)
     \<and> board game ! nat x ! nat y = B_Piece
     \<and> countPiece (if currPiece game = O_Piece then oCounts game else xCounts game) x y = Some c
     \<and> game2 =
         (if currPiece game = O_Piece
          then game\<lparr>board := (board game)[nat x := (board game ! nat x)[nat y := currPiece game]],
                    totalPieces := totalPieces game + 1, oCounts := c\<rparr>
          else game\<lparr>board := (board game)[nat x := (board game ! nat x)[nat y := currPiece game]],
                    totalPieces := totalPieces game + 1, xCounts := c\<rparr>)
     \<and> checkGameOver game2 x y = Some res
     \<and> game' =
         (if res \<noteq> Pending then game2
          else game2\<lparr>currPiece := (if currPiece game = O_Piece then X_Piece else O_Piece),
                     currPlayer := nextPlayer game, nextPlayer := user\<rparr>)"
proof -
  have u: "user = currPlayer game"
    using mv by (cases "user = currPlayer game") (simp_all add: makeMove_def)
  have rg: "0 \<le> x \<and> x < boardSize \<and> 0 \<le> y \<and> y < boardSize"
    using mv u by (cases "x < 0 \<or> x \<ge> boardSize \<or> y < 0 \<or> y \<ge> boardSize")
      (simp_all add: makeMove_def)
  have lx: "nat x < length (board game)"
    using mv u rg by (cases "nat x < length (board game)")
      (simp_all add: makeMove_def arrayGet_def nat_less_iff)
  have gx: "arrayGet (board game) x = Some (board game ! nat x)"
    using rg lx by (simp add: arrayGet_in_range)
  have ly: "nat y < length (board game ! nat x)"
    using mv u rg gx by (cases "nat y < length (board game ! nat x)")
      (simp_all add: makeMove_def arrayGet_def [of "board game ! nat x"] nat_less_iff)
  have gy: "arrayGet (board game ! nat x) y = Some (board game ! nat x ! nat y)"
    using rg ly by (simp add: arrayGet_in_range)
  have blank: "board game ! nat x ! nat y = B_Piece"
    using mv u rg gx gy by (cases "board game ! nat x ! nat y = B_Piece")
      (simp_all add: makeMove_def)
  let ?b = "(board game)[nat x := (board game ! nat x)[nat y := currPiece game]]"
  let ?g1 = "game\<lparr>board := ?b, totalPieces := totalPieces game + 1\<rparr>"
  have s1: "arraySet (board game ! nat x) y (currPiece game)
      = Some ((board game ! nat x)[nat y := currPiece game])"
    using rg ly by (simp add: arraySet_in_range)
  have s2: "arraySet (board game) x ((board game ! nat x)[nat y := currPiece game]) = Some ?b"
    using rg lx by (simp add: arraySet_in_range)
  show ?thesis
  proof (cases "currPiece game = O_Piece")
    case True
    with mv u rg lx ly gx gy blank s1 s2 show ?thesis
      by (auto simp: makeMove_def Let_def bind_eq_Some_conv split: if_splits)
  next
    case False
    with mv u rg lx ly gx gy blank s1 s2 show ?thesis
      by (auto simp: makeMove_def Let_def bind_eq_Some_conv split: if_splits)
  qed
qed

lemma makeMove_blank:
  assumes "wellShaped game" "user = currPlayer game"
    and "0 \<le> x" "x < boardSize" "0 \<le> y" "y < boardSize"
    and "board game ! nat x ! nat y = B_Piece"
  shows "\<exists>res game'. makeMove game user x y = Some ((None, res), game')"
proof -
  let ?row = "(board game ! nat x)[nat y := currPiece game]"
  let ?g1 = "game\<lparr>board := (board game)[nat x := ?row], totalPieces := totalPieces game + 1\<rparr>"
  from assms have lx: "nat x < length (board game)"
    by (simp add: wellShaped_def)
  with assms have ly: "length (board game ! nat x) = nat boardSize"
    by (simp add: wellShaped_def list_all_length)
  have set1: "arraySet (board game ! nat x) y (currPiece game) = Some ?row"
    using assms ly by (simp add: arraySet_def)
  have set2: "arraySet (board game) x ?row = Some ((board game)[nat x := ?row])"
    using assms lx by (simp add: arraySet_def)
  have ws1: "wellShaped ?g1"
    using assms lx ly
    by (auto simp: wellShaped_def list_all_length nth_list_update)
  obtain co where co: "countPiece (oCounts game) x y = Some co" "wellShapedCounts co"
    using countPiece_in_range [of "oCounts game" x y] assms by (auto simp: wellShaped_def)
  obtain cx where cx: "countPiece (xCounts game) x y = Some cx" "wellShapedCounts cx"
    using countPiece_in_range [of "xCounts game" x y] assms by (auto simp: wellShaped_def)
  have wo: "wellShaped (?g1\<lparr>oCounts := co\<rparr>)" and wx: "wellShaped (?g1\<lparr>xCounts := cx\<rparr>)"
    using ws1 co cx by (simp_all add: wellShaped_def)
  obtain ro where ro: "checkGameOver (?g1\<lparr>oCounts := co\<rparr>) x y = Some ro"
    using checkGameOver_in_range [OF wo] assms by blast
  obtain rx where rx: "checkGameOver (?g1\<lparr>xCounts := cx\<rparr>) x y = Some rx"
    using checkGameOver_in_range [OF wx] assms by blast
  show ?thesis
    using assms wellShaped_cell [of game x y] set1 set2 co cx ro rx
    by (cases "currPiece game = O_Piece") (auto simp: makeMove_def Let_def)
qed

lemma makeMove_total:
  assumes "wellShaped game"
  shows "\<exists>err res game'. makeMove game user x y = Some ((err, res), game')"
proof (cases "user = currPlayer game")
  case False
  then show ?thesis by (simp add: makeMove_wrong_turn)
next
  case u: True
  show ?thesis
  proof (cases "x < 0 \<or> x \<ge> boardSize \<or> y < 0 \<or> y \<ge> boardSize")
    case True
    with u show ?thesis by (simp add: makeMove_out_of_range)
  next
    case False
    then have rg: "0 \<le> x" "x < boardSize" "0 \<le> y" "y < boardSize" by simp_all
    show ?thesis
    proof (cases "board game ! nat x ! nat y = B_Piece")
      case True
      from makeMove_blank [OF assms u rg True] show ?thesis by blast
    next
      case False
      from makeMove_occupied [OF assms u rg False] show ?thesis by blast
    qed
  qed
qed

lemma full_board_result:
  assumes "makeMove game user x y = Some ((None, res), game')"
  shows "if totalPieces game + 1 = boardSize * boardSize
     then res = OWin \<or> res = XWin \<or> res = Tie
     else res = OWin \<or> res = XWin \<or> res = Pending"
proof -
  from assms obtain c game2 where
    g2: "game2 =
         (if currPiece game = O_Piece
          then game\<lparr>board := (board game)[nat x := (board game ! nat x)[nat y := currPiece game]],
                    totalPieces := totalPieces game + 1, oCounts := c\<rparr>
          else game\<lparr>board := (board game)[nat x := (board game ! nat x)[nat y := currPiece game]],
                    totalPieces := totalPieces game + 1, xCounts := c\<rparr>)"
    and chk: "checkGameOver game2 x y = Some res"
    using makeMove_accepted [of game user x y res game'] by blast
  have t2: "totalPieces game2 = totalPieces game + 1"
    by (simp add: g2)
  from chk show ?thesis
    unfolding t2 [symmetric]
    by (cases "currPiece game2 = O_Piece")
      (auto simp: checkGameOver_def Let_def bind_eq_Some_conv split: if_splits)
qed

lemma checkGameOver_win:
  assumes "checkGameOver game x y = Some res" "res = OWin \<or> res = XWin"
    and "diagWin (if currPiece game = O_Piece then oCounts game else xCounts game) (getDiag x y)
       = Some False"
  shows "if currPiece game = O_Piece
     then res = OWin \<and> (arrayGet (rows (oCounts game)) x = Some boardSize
                       \<or> arrayGet (cols (oCounts game)) y = Some boardSize)
     else res = XWin \<and> (arrayGet (rows (xCounts game)) x = Some boardSize
                       \<or> arrayGet (cols (xCounts game)) x = Some boardSize)"
  using assms
  by (cases "currPiece game = O_Piece")
    (auto simp: checkGameOver_def Let_def bind_eq_Some_conv split: if_splits)

subsection \<open>Pieces on the board\<close>

lemma length_filter_update:
  "j < length xs \<Longrightarrow> \<not> P (xs ! j) \<Longrightarrow> P v \<Longrightarrow>
     length (filter P (xs[j := v])) = Suc (length (filter P xs))"
proof (induction xs arbitrary: j)
  case Nil
  then show ?case by simp
next
  case (Cons a xs)
  then show ?case by (cases j) auto
qed

lemma length_filter_concat_update:
  "i < length b \<Longrightarrow> length (filter P r) = Suc (length (filter P (b ! i))) \<Longrightarrow>
     length (filter P (concat (b[i := r]))) = Suc (length (filter P (concat b)))"
proof (induction b arbitrary: i)
  case Nil
  then show ?case by simp
next
  case (Cons a b)
  then show ?case by (cases i) auto
qed

lemma nonBlank_place:
  assumes "i < length b" "j < length (b ! i)" "b ! i ! j = B_Piece" "p \<noteq> B_Piece"
  shows "nonBlank (b[i := (b ! i)[j := p]]) = Suc (nonBlank b)"
  unfolding nonBlank_def using assms
  by (intro length_filter_concat_update length_filter_update) simp_all

lemma nonBlank_bounded:
  assumes "wellShaped game"
  shows "int (nonBlank (board game)) \<le> boardSize * boardSize"
proof -
  have "nonBlank (board game) \<le> length (concat (board game))"
    unfolding nonBlank_def by (rule length_filter_le)
  also have "\<dots> = 9"
    using wellShaped_board [OF assms] by auto
  finally show ?thesis by (simp add: boardSize_def)
qed

text \<open>One call keeps the shape of the game and the piece to move, and counts itself
  in \<^verbatim>\<open>totalPieces\<close> and on the board exactly when it is accepted.\<close>

lemma makeMove_step:
  assumes ws: "wellShaped game" and cp: "currPiece game \<noteq> B_Piece"
    and mv: "makeMove game user x y = Some ((err, res), game')"
  shows "wellShaped game' \<and> currPiece game' \<noteq> B_Piece
     \<and> totalPieces game' = totalPieces game + (if err = None then 1 else 0)
     \<and> nonBlank (board game') = nonBlank (board game) + (if err = None then 1 else 0)"
proof (cases err)
  case (Some e)
  with mv have "game' = game" by (simp add: makeMove_refused)
  with ws cp Some show ?thesis by simp
next
  case None
  with mv obtain c game2 where
    lx: "nat x < length (board game)" and ly: "nat y < length (board game ! nat x)"
    and blank: "board game ! nat x ! nat y = B_Piece"
    and c: "countPiece (if currPiece game = O_Piece then oCounts game else xCounts game) x y
        = Some c"
    and g2: "game2 =
         (if currPiece game = O_Piece
          then game\<lparr>board := (board game)[nat x := (board game ! nat x)[nat y := currPiece game]],
                    totalPieces := totalPieces game + 1, oCounts := c\<rparr>
          else game\<lparr>board := (board game)[nat x := (board game ! nat x)[nat y := currPiece game]],
                    totalPieces := totalPieces game + 1, xCounts := c\<rparr>)"
    and g': "game' =
         (if res \<noteq> Pending then game2
          else game2\<lparr>currPiece := (if currPiece game = O_Piece then X_Piece else O_Piece),
                     currPlayer := nextPlayer game, nextPlayer := user\<rparr>)"
    using makeMove_accepted [of game user x y res game'] by blast
  have b': "board game' = (board game)[nat x := (board game ! nat x)[nat y := currPiece game]]"
    and t': "totalPieces game' = totalPieces game + 1"
    and o': "oCounts game' = (if currPiece game = O_Piece then c else oCounts game)"
    and x': "xCounts game' = (if currPiece game = O_Piece then xCounts game else c)"
    and p': "currPiece game' \<noteq> B_Piece"
    using cp by (simp_all add: g' g2)
  have wc: "wellShapedCounts c"
    using c ws by (auto intro: countPiece_shape simp: wellShaped_def split: if_splits)
  have wb: "length (board game') = nat boardSize
      \<and> list_all (\<lambda>row. length row = nat boardSize) (board game')"
    using ws lx by (auto simp: b' wellShaped_def list_all_length nth_list_update)
  have ws': "wellShaped game'"
    using ws wb wc by (simp add: wellShaped_def o' x')
  have nb: "nonBlank (board game') = Suc (nonBlank (board game))"
    unfolding b' using lx ly blank cp by (rule nonBlank_place)
  from ws' p' t' nb None show ?thesis by simp
qed

lemma makeMoves_invariant:
  assumes "wellShaped game" "currPiece game \<noteq> B_Piece"
  shows "\<exists>ress game'. makeMoves game calls = Some (ress, game')
     \<and> wellShaped game' \<and> currPiece game' \<noteq> B_Piece
     \<and> totalPieces game' = totalPieces game + int (successes ress)
     \<and> nonBlank (board game') = nonBlank (board game) + successes ress"
  using assms
proof (induction calls arbitrary: game)
  case Nil
  then show ?case by (simp add: successes_def)
next
  case (Cons call calls)
  obtain user x y where call: "call = (user, x, y)" by (cases call) auto
  from makeMove_total [OF Cons.prems(1)] obtain err res game1 where
    mv: "makeMove game user x y = Some ((err, res), game1)" by blast
  from makeMove_step [OF Cons.prems mv] have
    st: "wellShaped game1" "currPiece game1 \<noteq> B_Piece"
      "totalPieces game1 = totalPieces game + (if err = None then 1 else 0)"
      "nonBlank (board game1) = nonBlank (board game) + (if err = None then 1 else 0)"
    by simp_all
  from Cons.IH [OF st(1,2)] obtain ress game2 where
    rec: "makeMoves game1 calls = Some (ress, game2)" "wellShaped game2"
      "currPiece game2 \<noteq> B_Piece"
      "totalPieces game2 = totalPieces game1 + int (successes ress)"
      "nonBlank (board game2) = nonBlank (board game1) + successes ress"
    by blast
  have "makeMoves game (call # calls) = Some ((err, res) # ress, game2)"
    by (simp add: call mv rec(1))
  moreover have "successes ((err, res) # ress) = (if err = None then 1 else 0) + successes ress"
    by (simp add: successes_def)
  ultimately show ?case using st rec by auto
qed

subsection \<open>Pieces on the corners\<close>

lemma onCorners_place:
  assumes b: "b = [[a0, a1, a2], [b0, b1, b2], [c0, c1, c2]]"
    and rg: "0 \<le> x" "x < boardSize" "0 \<le> y" "y < boardSize"
    and blank: "b ! nat x ! nat y = B_Piece" and p: "p \<noteq> B_Piece" and q: "q \<noteq> B_Piece"
  shows "onCorners (b[nat x := (b ! nat x)[nat y := p]]) q =
     (if q = p \<and> getDiag x y \<ge> 0
      then (onCorners b q)[nat (getDiag x y) := onCorners b q ! nat (getDiag x y) + 1]
      else onCorners b q)"
proof -
  from rg have "x = 0 \<or> x = 1 \<or> x = 2" and "y = 0 \<or> y = 1 \<or> y = 2"
    by (simp_all add: in_range_cases)
  with blank p q show ?thesis
    by (elim disjE) (auto simp: b onCorners_def getDiag_def boardSize_def)
qed

lemma makeMove_corner_counts:
  assumes ws: "wellShaped game" and cp: "currPiece game \<noteq> B_Piece"
    and inv: "diags (oCounts game) = onCorners (board game) O_Piece"
      "diags (xCounts game) = onCorners (board game) X_Piece"
    and mv: "makeMove game user x y = Some ((err, res), game')"
  shows "diags (oCounts game') = onCorners (board game') O_Piece
     \<and> diags (xCounts game') = onCorners (board game') X_Piece"
proof (cases err)
  case (Some e)
  with mv have "game' = game" by (simp add: makeMove_refused)
  with inv show ?thesis by simp
next
  case None
  with mv obtain c game2 where
    rg: "0 \<le> x" "x < boardSize" "0 \<le> y" "y < boardSize"
    and blank: "board game ! nat x ! nat y = B_Piece"
    and c: "countPiece (if currPiece game = O_Piece then oCounts game else xCounts game) x y
        = Some c"
    and g2: "game2 =
         (if currPiece game = O_Piece
          then game\<lparr>board := (board game)[nat x := (board game ! nat x)[nat y := currPiece game]],
                    totalPieces := totalPieces game + 1, oCounts := c\<rparr>
          else game\<lparr>board := (board game)[nat x := (board game ! nat x)[nat y := currPiece game]],
                    totalPieces := totalPieces game + 1, xCounts := c\<rparr>)"
    and g': "game' =
         (if res \<noteq> Pending then game2
          else game2\<lparr>currPiece := (if currPiece game = O_Piece then X_Piece else O_Piece),
                     currPlayer := nextPlayer game, nextPlayer := user\<rparr>)"
    using makeMove_accepted [of game user x y res game'] by blast
  have b': "board game' = (board game)[nat x := (board game ! nat x)[nat y := currPiece game]]"
    and o': "oCounts game' = (if currPiece game = O_Piece then c else oCounts game)"
    and x': "xCounts game' = (if currPiece game = O_Piece then xCounts game else c)"
    by (simp_all add: g' g2)
  from wellShaped_board [OF ws] obtain a0 a1 a2 b0 b1 b2 c0 c1 c2 where
    b: "board game = [[a0, a1, a2], [b0, b1, b2], [c0, c1, c2]]" by blast
  note place = onCorners_place [OF b rg blank cp]
  have dc: "diags c =
     (if getDiag x y \<ge> 0
      then (diags (if currPiece game = O_Piece then oCounts game else xCounts game))
             [nat (getDiag x y) :=
                diags (if currPiece game = O_Piece then oCounts game else xCounts game)
                  ! nat (getDiag x y) + 1]
      else diags (if currPiece game = O_Piece then oCounts game else xCounts game))"
    using c by (rule countPiece_diags)
  show ?thesis
  proof (cases "currPiece game = O_Piece")
    case True
    with dc inv place [of O_Piece] place [of X_Piece] show ?thesis
      by (simp add: b' o' x')
  next
    case False
    with cp have "currPiece game = X_Piece" by (cases "currPiece game") simp_all
    with dc inv place [of O_Piece] place [of X_Piece] show ?thesis
      by (simp add: b' o' x')
  qed
qed

lemma makeMoves_corner_counts:
  assumes "wellShaped game" "currPiece game \<noteq> B_Piece"
    and "diags (oCounts game) = onCorners (board game) O_Piece"
    and "diags (xCounts game) = onCorners (board game) X_Piece"
    and "makeMoves game calls = Some (ress, game')"
  shows "wellShaped game' \<and> currPiece game' \<noteq> B_Piece
     \<and> diags (oCounts game') = onCorners (board game') O_Piece
     \<and> diags (xCounts game') = onCorners (board game') X_Piece"
  using assms
proof (induction calls arbitrary: game ress)
  case Nil
  then show ?case by simp
next
  case (Cons call calls)
  obtain user x y where call: "call = (user, x, y)" by (cases call) auto
  from Cons.prems(5) obtain err res game1 ress1 where
    mv: "makeMove game user x y = Some ((err, res), game1)"
    and rest: "makeMoves game1 calls = Some (ress1, game')"
    by (auto simp: call bind_eq_Some_conv)
  from makeMove_step [OF Cons.prems(1,2) mv] have
    st: "wellShaped game1" "currPiece game1 \<noteq> B_Piece" by simp_all
  from makeMove_corner_counts [OF Cons.prems(1-4) mv] have
    d: "diags (oCounts game1) = onCorners (board game1) O_Piece"
      "diags (xCounts game1) = onCorners (board game1) X_Piece" by simp_all
  from Cons.IH [OF st d rest] show ?case .
qed

lemma onCorners_le: "list_all (\<lambda>n. n \<le> 2) (onCorners b p) \<and> length (onCorners b p) = 2"
  by (simp add: onCorners_def)

lemma diagWin_small:
  assumes "diags c = onCorners b p"
  shows "diagWin c (getDiag x y) = Some False"
  using getDiag_range [of x y]
  by (auto simp: diagWin_def arrayGet_def boardSize_def assms onCorners_def)

section \<open>Properties\<close>

subsection \<open>The win check\<close>

text \<open>
  C1. The second player (who can only move under the empty name) takes the cells
  \<^verbatim>\<open>(0,1), (1,1), (2,1)\<close>. After the last of them \<^verbatim>\<open>xCounts.cols[1]\<close> is
  \<^verbatim>\<open>boardSize\<close>, and the move returns \<^verbatim>\<open>Pending\<close>: for piece \<^verbatim>\<open>X\<close> the win check
  reads \<^verbatim>\<open>cols[x]\<close>, here \<^verbatim>\<open>cols[2]\<close>. The second conjunct is the call of
  \<^verbatim>\<open>checkGameOver\<close> inside that move, on the game as it is before the turn passes.
\<close>

theorem checkGameOver_X_column_unseen:
  "makeMoves (fst (startGame ''alice'' ''bob'' Map.empty))
       [(''alice'', 0, 0), ('''', 0, 1), (''alice'', 2, 2), ('''', 1, 1), (''alice'', 1, 0),
        ('''', 2, 1)]
     = Some ([(None, Pending), (None, Pending), (None, Pending), (None, Pending),
              (None, Pending), (None, Pending)],
        \<lparr>board = [[O_Piece, X_Piece, B_Piece], [O_Piece, X_Piece, B_Piece],
                  [B_Piece, X_Piece, O_Piece]],
         currPiece = O_Piece, currPlayer = ''alice'', nextPlayer = '''',
         oCounts = \<lparr>rows = [1, 1, 1], cols = [2, 0, 1], diags = [2, 0]\<rparr>,
         xCounts = \<lparr>rows = [1, 1, 1], cols = [0, 3, 0], diags = [0, 0]\<rparr>,
         totalPieces = 6\<rparr>)
   \<and> checkGameOver
        \<lparr>board = [[O_Piece, X_Piece, B_Piece], [O_Piece, X_Piece, B_Piece],
                  [B_Piece, X_Piece, O_Piece]],
         currPiece = X_Piece, currPlayer = '''', nextPlayer = ''alice'',
         oCounts = \<lparr>rows = [1, 1, 1], cols = [2, 0, 1], diags = [2, 0]\<rparr>,
         xCounts = \<lparr>rows = [1, 1, 1], cols = [0, 3, 0], diags = [0, 0]\<rparr>,
         totalPieces = 6\<rparr> 2 1 = Some Pending"
  by code_simp

text \<open>
  C2. The first player takes the main diagonal \<^verbatim>\<open>(0,0), (1,1), (2,2)\<close>. All five moves
  return \<^verbatim>\<open>Pending\<close>, the third diagonal piece included, and the scan of the board
  reached finds the line of \<^verbatim>\<open>O\<close>: the counters report no winner where the scan
  reports the first player.
\<close>

theorem diagonal_line_not_reported:
  "makeMoves (fst (startGame ''alice'' ''bob'' Map.empty))
       [(''alice'', 0, 0), ('''', 0, 1), (''alice'', 1, 1), ('''', 0, 2), (''alice'', 2, 2)]
     = Some ([(None, Pending), (None, Pending), (None, Pending), (None, Pending),
              (None, Pending)],
        \<lparr>board = [[O_Piece, X_Piece, X_Piece], [B_Piece, O_Piece, B_Piece],
                  [B_Piece, B_Piece, O_Piece]],
         currPiece = X_Piece, currPlayer = '''', nextPlayer = ''alice'',
         oCounts = \<lparr>rows = [1, 1, 1], cols = [1, 1, 1], diags = [2, 0]\<rparr>,
         xCounts = \<lparr>rows = [2, 0, 0], cols = [0, 1, 1], diags = [0, 1]\<rparr>,
         totalPieces = 5\<rparr>)
   \<and> scanWinner [[O_Piece, X_Piece, X_Piece], [B_Piece, O_Piece, B_Piece],
                 [B_Piece, B_Piece, O_Piece]] = Some OWin"
  by code_simp

text \<open>
  C3. \<^verbatim>\<open>getDiag\<close> is documented as finding the diagonal of a cell ("Top left to bottom
  right diagonal", "Top right to bottom left diagonal"), but it compares the cell with
  the four corners only. The centre \<^verbatim>\<open>(1, 1)\<close> of the board has \<^verbatim>\<open>x == y\<close> and
  \<^verbatim>\<open>x + y == boardSize - 1\<close>, and \<^verbatim>\<open>getDiag\<close> answers \<^verbatim>\<open>-1\<close>, "not a diagonal".
\<close>

theorem getDiag_centre:
  "getDiag 1 1 = - 1 \<and> (1::int) + 1 = boardSize - 1"
  by (simp add: getDiag_def boardSize_def)

subsection \<open>Starting a game\<close>

text \<open>
  C4. \<^verbatim>\<open>startGame\<close> returns a game with a blank board, zero counters, piece \<^verbatim>\<open>O\<close>
  to move, \<^verbatim>\<open>userA\<close> as the current player and no piece placed; the next player is the
  empty string, whatever \<^verbatim>\<open>userB\<close> is, since the struct literal leaves
  \<^verbatim>\<open>nextPlayer\<close> out.
\<close>

theorem startGame_fields:
  "fst (startGame userA userB currentGames) =
     \<lparr>board = [[B_Piece, B_Piece, B_Piece], [B_Piece, B_Piece, B_Piece],
               [B_Piece, B_Piece, B_Piece]],
      currPiece = O_Piece, currPlayer = userA, nextPlayer = '''',
      oCounts = \<lparr>rows = [0, 0, 0], cols = [0, 0, 0], diags = [0, 0]\<rparr>,
      xCounts = \<lparr>rows = [0, 0, 0], cols = [0, 0, 0], diags = [0, 0]\<rparr>,
      totalPieces = 0\<rparr>"
  by (rule startGame_value)

subsection \<open>Validation of a move\<close>

text \<open>
  C5. On a game whose arrays have the sizes of their Go types, \<^verbatim>\<open>makeMove\<close> always
  returns. The error is that of a wrong turn exactly when the caller is not the current
  player; otherwise that of a position out of range exactly when \<^verbatim>\<open>x\<close> or \<^verbatim>\<open>y\<close>
  is outside \<^verbatim>\<open>[0, boardSize)\<close>; otherwise that of an occupied cell exactly when the
  cell is not blank. The error is nil exactly when the three checks pass. Every error
  comes with \<^verbatim>\<open>Pending\<close> and with the game as it was.
\<close>

theorem makeMove_validation:
  assumes "wellShaped game"
  shows "\<exists>err res game'. makeMove game user x y = Some ((err, res), game')
     \<and> (err = Some (WrongTurn user) \<longleftrightarrow> user \<noteq> currPlayer game)
     \<and> (err = Some (OutOfRange x y) \<longleftrightarrow>
          user = currPlayer game \<and> (x < 0 \<or> x \<ge> boardSize \<or> y < 0 \<or> y \<ge> boardSize))
     \<and> (err = Some (CellOccupied x y) \<longleftrightarrow>
          user = currPlayer game \<and> 0 \<le> x \<and> x < boardSize \<and> 0 \<le> y \<and> y < boardSize
          \<and> board game ! nat x ! nat y \<noteq> B_Piece)
     \<and> (err = None \<longleftrightarrow>
          user = currPlayer game \<and> 0 \<le> x \<and> x < boardSize \<and> 0 \<le> y \<and> y < boardSize
          \<and> board game ! nat x ! nat y = B_Piece)
     \<and> (err \<noteq> None \<longrightarrow> res = Pending \<and> game' = game)"
proof (cases "user = currPlayer game")
  case False
  then show ?thesis by (simp add: makeMove_wrong_turn)
next
  case u: True
  show ?thesis
  proof (cases "x < 0 \<or> x \<ge> boardSize \<or> y < 0 \<or> y \<ge> boardSize")
    case True
    with u show ?thesis by (auto simp: makeMove_out_of_range)
  next
    case False
    then have rg: "0 \<le> x" "x < boardSize" "0 \<le> y" "y < boardSize" by simp_all
    show ?thesis
    proof (cases "board game ! nat x ! nat y = B_Piece")
      case True
      from makeMove_blank [OF assms u rg True] u rg True show ?thesis by auto
    next
      case False
      from makeMove_occupied [OF assms u rg False] u rg False show ?thesis by simp
    qed
  qed
qed

theorem makeMove_validation_witness:
  "wellShaped (fst (startGame ''alice'' ''bob'' Map.empty))
   \<and> (\<exists>res game'. makeMove (fst (startGame ''alice'' ''bob'' Map.empty)) ''bob'' 0 0
          = Some ((Some (WrongTurn ''bob''), res), game')
        \<and> res = Pending \<and> game' = fst (startGame ''alice'' ''bob'' Map.empty))
   \<and> (\<exists>res game'. makeMove (fst (startGame ''alice'' ''bob'' Map.empty)) ''alice'' 3 0
          = Some ((Some (OutOfRange 3 0), res), game')
        \<and> res = Pending \<and> game' = fst (startGame ''alice'' ''bob'' Map.empty))
   \<and> (\<exists>res game'. makeMove (fst (startGame ''alice'' ''bob'' Map.empty)) ''alice'' 1 1
          = Some ((None, res), game'))"
proof -
  let ?g = "fst (startGame ''alice'' ''bob'' Map.empty)"
  have ws: "wellShaped ?g" by (rule startGame_wellShaped)
  have cp: "currPlayer ?g = ''alice''" and cell: "board ?g ! nat 1 ! nat 1 = B_Piece"
    by (simp_all add: startGame_value)
  show ?thesis
    using ws cp cell makeMove_validation [OF ws, of "''bob''" 0 0]
      makeMove_validation [OF ws, of "''alice''" 3 0]
      makeMove_validation [OF ws, of "''alice''" 1 1]
    by (auto simp: boardSize_def)
qed

text \<open>
  C6. Whenever \<^verbatim>\<open>makeMove\<close> returns an error, the game after the call is the game
  before it, in every field (board, both players' counters, \<^verbatim>\<open>totalPieces\<close>, the
  piece and the players of the turn), and the result is \<^verbatim>\<open>Pending\<close>.
\<close>

theorem makeMove_error_leaves_game:
  assumes "makeMove game user x y = Some ((Some e, res), game')"
  shows "game' = game \<and> res = Pending"
  using assms by (rule makeMove_refused)

theorem makeMove_error_leaves_game_witness:
  "makeMove (fst (startGame ''alice'' ''bob'' Map.empty)) ''bob'' 0 0
     = Some ((Some (WrongTurn ''bob''), Pending), fst (startGame ''alice'' ''bob'' Map.empty))
   \<and> makeMove (fst (startGame ''alice'' ''bob'' Map.empty)) ''alice'' 0 7
     = Some ((Some (OutOfRange 0 7), Pending), fst (startGame ''alice'' ''bob'' Map.empty))"
proof -
  let ?g = "fst (startGame ''alice'' ''bob'' Map.empty)"
  have cp: "currPlayer ?g = ''alice''" by (simp add: startGame_value)
  obtain res game' where
    h: "makeMove ?g ''bob'' 0 0 = Some ((Some (WrongTurn ''bob''), res), game')"
    using cp by (simp add: makeMove_wrong_turn)
  obtain res2 game2 where
    h2: "makeMove ?g ''alice'' 0 7 = Some ((Some (OutOfRange 0 7), res2), game2)"
    using cp by (simp add: makeMove_out_of_range boardSize_def)
  from makeMove_error_leaves_game [OF h] makeMove_error_leaves_game [OF h2] h h2
  show ?thesis by simp
qed

subsection \<open>The number of pieces\<close>

text \<open>
  C7. Any sequence of calls of \<^verbatim>\<open>makeMove\<close> on a new game returns, and after it
  \<^verbatim>\<open>totalPieces\<close> is the number of accepted calls (those with a nil error), is the
  number of cells that are not blank, and is at most \<^verbatim>\<open>boardSize * boardSize\<close>. The
  sequence is arbitrary, so this holds after every single call.
\<close>

theorem totalPieces_counts_moves:
  "\<exists>ress game. makeMoves (fst (startGame userA userB currentGames)) calls = Some (ress, game)
     \<and> totalPieces game = int (successes ress)
     \<and> totalPieces game = int (nonBlank (board game))
     \<and> totalPieces game \<le> boardSize * boardSize"
proof -
  let ?g = "fst (startGame userA userB currentGames)"
  have ws: "wellShaped ?g" by (rule startGame_wellShaped)
  have cp: "currPiece ?g \<noteq> B_Piece" and t0: "totalPieces ?g = 0"
    and n0: "nonBlank (board ?g) = 0"
    by (simp_all add: startGame_value nonBlank_def)
  from makeMoves_invariant [OF ws cp, of calls] obtain ress game where
    r: "makeMoves ?g calls = Some (ress, game)" "wellShaped game"
      "totalPieces game = totalPieces ?g + int (successes ress)"
      "nonBlank (board game) = nonBlank (board ?g) + successes ress"
    by blast
  from r(3,4) t0 n0 have eq: "totalPieces game = int (successes ress)"
      "totalPieces game = int (nonBlank (board game))"
    by simp_all
  from nonBlank_bounded [OF r(2)] eq have "totalPieces game \<le> boardSize * boardSize"
    by simp
  with r(1) eq show ?thesis by blast
qed

theorem totalPieces_counts_moves_witness:
  "\<exists>ress game. makeMoves (fst (startGame ''alice'' ''bob'' Map.empty))
        [(''alice'', 0, 0), (''bob'', 1, 1), ('''', 1, 1), ('''', 1, 1)] = Some (ress, game)
     \<and> successes ress = 2 \<and> totalPieces game = 2 \<and> nonBlank (board game) = 2"
proof -
  have run: "makeMoves (fst (startGame ''alice'' ''bob'' Map.empty))
        [(''alice'', 0, 0), (''bob'', 1, 1), ('''', 1, 1), ('''', 1, 1)]
     = Some ([(None, Pending), (Some (WrongTurn ''bob''), Pending), (None, Pending),
              (Some (WrongTurn ''''), Pending)],
        \<lparr>board = [[O_Piece, B_Piece, B_Piece], [B_Piece, X_Piece, B_Piece],
                  [B_Piece, B_Piece, B_Piece]],
         currPiece = O_Piece, currPlayer = ''alice'', nextPlayer = '''',
         oCounts = \<lparr>rows = [1, 0, 0], cols = [1, 0, 0], diags = [1, 0]\<rparr>,
         xCounts = \<lparr>rows = [0, 1, 0], cols = [0, 1, 0], diags = [0, 0]\<rparr>,
         totalPieces = 2\<rparr>)"
    by code_simp
  from totalPieces_counts_moves [of "''alice''" "''bob''" Map.empty
      "[(''alice'', 0, 0), (''bob'', 1, 1), ('''', 1, 1), ('''', 1, 1)]"] run
  show ?thesis by (auto simp: successes_def)
qed

subsection \<open>The full board\<close>

text \<open>
  C8. Nine moves fill the board; before the ninth neither player has a line, and the
  ninth, by the first player on the centre, completes the main diagonal. The move
  returns \<^verbatim>\<open>Tie\<close>, not \<^verbatim>\<open>OWin\<close>. (The order of the two checks is as documented,
  see \<open>full_board_result\<close>: the move that fills the board returns \<^verbatim>\<open>Tie\<close> unless
  the win check finds a win. It is the win check that misses this diagonal.)
\<close>

theorem ninth_move_diagonal_is_Tie:
  "makeMoves (fst (startGame ''alice'' ''bob'' Map.empty))
       [(''alice'', 0, 0), ('''', 0, 2), (''alice'', 0, 1), ('''', 1, 0), (''alice'', 1, 2),
        ('''', 2, 0), (''alice'', 2, 2), ('''', 2, 1), (''alice'', 1, 1)]
     = Some ([(None, Pending), (None, Pending), (None, Pending), (None, Pending),
              (None, Pending), (None, Pending), (None, Pending), (None, Pending),
              (None, Tie)],
        \<lparr>board = [[O_Piece, O_Piece, X_Piece], [X_Piece, O_Piece, O_Piece],
                  [X_Piece, X_Piece, O_Piece]],
         currPiece = O_Piece, currPlayer = ''alice'', nextPlayer = '''',
         oCounts = \<lparr>rows = [2, 2, 1], cols = [1, 2, 2], diags = [2, 0]\<rparr>,
         xCounts = \<lparr>rows = [1, 1, 2], cols = [2, 1, 1], diags = [0, 2]\<rparr>,
         totalPieces = 9\<rparr>)
   \<and> hasLine [[O_Piece, O_Piece, X_Piece], [X_Piece, O_Piece, O_Piece],
              [X_Piece, X_Piece, O_Piece]] O_Piece
   \<and> \<not> hasLine [[O_Piece, O_Piece, X_Piece], [X_Piece, B_Piece, O_Piece],
                [X_Piece, X_Piece, O_Piece]] O_Piece
   \<and> \<not> hasLine [[O_Piece, O_Piece, X_Piece], [X_Piece, B_Piece, O_Piece],
                [X_Piece, X_Piece, O_Piece]] X_Piece"
  by code_simp

subsection \<open>A game of five moves\<close>

text \<open>
  C9. A game between \<^verbatim>\<open>alice\<close> and \<^verbatim>\<open>bob\<close>, with the moves
  \<^verbatim>\<open>(0,0), (1,0), (0,1), (1,1), (0,2)\<close> submitted by the two in turn: the first move is
  accepted and makes the empty string the current player, so the move of \<^verbatim>\<open>bob\<close>
  and every later move is refused as out of turn, and nobody wins.
\<close>

theorem second_player_never_moves:
  "map_option fst (makeMoves (fst (startGame ''alice'' ''bob'' Map.empty))
       [(''alice'', 0, 0), (''bob'', 1, 0), (''alice'', 0, 1), (''bob'', 1, 1), (''alice'', 0, 2)])
     = Some [(None, Pending), (Some (WrongTurn ''bob''), Pending),
             (Some (WrongTurn ''alice''), Pending), (Some (WrongTurn ''bob''), Pending),
             (Some (WrongTurn ''alice''), Pending)]"
  by code_simp

text \<open>
  The same five moves are accepted, and the fifth returns \<^verbatim>\<open>OWin\<close> (the counter
  \<^verbatim>\<open>oCounts.rows[0]\<close> reaches \<^verbatim>\<open>boardSize\<close>), when the second player submits
  them under the empty name.
\<close>

lemma five_moves_under_empty_name:
  "map_option fst (makeMoves (fst (startGame ''alice'' ''bob'' Map.empty))
       [(''alice'', 0, 0), ('''', 1, 0), (''alice'', 0, 1), ('''', 1, 1), (''alice'', 0, 2)])
     = Some [(None, Pending), (None, Pending), (None, Pending), (None, Pending), (None, OWin)]"
  by code_simp

subsection \<open>The diagonal counters\<close>

text \<open>
  C10. In a game reached from \<^verbatim>\<open>startGame\<close> by any sequence of calls of
  \<^verbatim>\<open>makeMove\<close>, take one more call, at \<^verbatim>\<open>(x, y)\<close>. Unless the cell is one of the
  four corners, the call leaves the diagonal counters of both players as they are. Each
  player has two diagonal counters, before and after the call, and none exceeds 2. When
  the call is accepted, the diagonal condition of its win check is false: that check
  reads the counters of the piece that moved, which are the ones the call leaves in the
  game. So a win that the call returns comes from the row or the column condition.
\<close>

theorem diagonal_counters_only_at_corners:
  assumes run: "makeMoves (fst (startGame userA userB currentGames)) calls = Some (ress, game)"
    and mv: "makeMove game user x y = Some ((err, res), game')"
  shows "((x, y) \<notin> {(0, 0), (2, 2), (2, 0), (0, 2)} \<longrightarrow>
            diags (oCounts game') = diags (oCounts game)
          \<and> diags (xCounts game') = diags (xCounts game))
     \<and> length (diags (oCounts game)) = 2 \<and> list_all (\<lambda>n. n \<le> 2) (diags (oCounts game))
     \<and> length (diags (xCounts game)) = 2 \<and> list_all (\<lambda>n. n \<le> 2) (diags (xCounts game))
     \<and> length (diags (oCounts game')) = 2 \<and> list_all (\<lambda>n. n \<le> 2) (diags (oCounts game'))
     \<and> length (diags (xCounts game')) = 2 \<and> list_all (\<lambda>n. n \<le> 2) (diags (xCounts game'))
     \<and> (err = None \<longrightarrow>
          diagWin (if currPiece game = O_Piece then oCounts game' else xCounts game')
            (getDiag x y) = Some False)
     \<and> (res = OWin \<longrightarrow>
          arrayGet (rows (oCounts game')) x = Some boardSize
        \<or> arrayGet (cols (oCounts game')) y = Some boardSize)
     \<and> (res = XWin \<longrightarrow>
          arrayGet (rows (xCounts game')) x = Some boardSize
        \<or> arrayGet (cols (xCounts game')) x = Some boardSize)"
proof -
  let ?g0 = "fst (startGame userA userB currentGames)"
  have "wellShaped ?g0" by (rule startGame_wellShaped)
  moreover have "currPiece ?g0 \<noteq> B_Piece"
      "diags (oCounts ?g0) = onCorners (board ?g0) O_Piece"
      "diags (xCounts ?g0) = onCorners (board ?g0) X_Piece"
    by (simp_all add: startGame_value onCorners_def)
  ultimately have inv: "wellShaped game" "currPiece game \<noteq> B_Piece"
      "diags (oCounts game) = onCorners (board game) O_Piece"
      "diags (xCounts game) = onCorners (board game) X_Piece"
    using makeMoves_corner_counts [OF _ _ _ _ run] by simp_all
  from makeMove_corner_counts [OF inv mv] have
    inv': "diags (oCounts game') = onCorners (board game') O_Piece"
      "diags (xCounts game') = onCorners (board game') X_Piece"
    by simp_all
  have bounds: "length (diags (oCounts game)) = 2 \<and> list_all (\<lambda>n. n \<le> 2) (diags (oCounts game))
     \<and> length (diags (xCounts game)) = 2 \<and> list_all (\<lambda>n. n \<le> 2) (diags (xCounts game))
     \<and> length (diags (oCounts game')) = 2 \<and> list_all (\<lambda>n. n \<le> 2) (diags (oCounts game'))
     \<and> length (diags (xCounts game')) = 2 \<and> list_all (\<lambda>n. n \<le> 2) (diags (xCounts game'))"
    unfolding inv(3,4) inv' using onCorners_le by blast
  have dw: "diagWin (if currPiece game = O_Piece then oCounts game' else xCounts game')
      (getDiag x y) = Some False"
    using inv' by (auto intro: diagWin_small)
  have rest: "((x, y) \<notin> corners \<longrightarrow>
            diags (oCounts game') = diags (oCounts game)
          \<and> diags (xCounts game') = diags (xCounts game))
     \<and> (res = OWin \<longrightarrow>
          arrayGet (rows (oCounts game')) x = Some boardSize
        \<or> arrayGet (cols (oCounts game')) y = Some boardSize)
     \<and> (res = XWin \<longrightarrow>
          arrayGet (rows (xCounts game')) x = Some boardSize
        \<or> arrayGet (cols (xCounts game')) x = Some boardSize)"
  proof (cases err)
    case (Some e)
    with mv have "game' = game \<and> res = Pending" by (simp add: makeMove_refused)
    then show ?thesis by simp
  next
    case None
    with mv obtain c game2 where
      c: "countPiece (if currPiece game = O_Piece then oCounts game else xCounts game) x y
          = Some c"
      and g2: "game2 =
           (if currPiece game = O_Piece
            then game\<lparr>board := (board game)[nat x := (board game ! nat x)[nat y := currPiece game]],
                      totalPieces := totalPieces game + 1, oCounts := c\<rparr>
            else game\<lparr>board := (board game)[nat x := (board game ! nat x)[nat y := currPiece game]],
                      totalPieces := totalPieces game + 1, xCounts := c\<rparr>)"
      and chk: "checkGameOver game2 x y = Some res"
      and g': "game' =
           (if res \<noteq> Pending then game2
            else game2\<lparr>currPiece := (if currPiece game = O_Piece then X_Piece else O_Piece),
                       currPlayer := nextPlayer game, nextPlayer := user\<rparr>)"
      using makeMove_accepted [of game user x y res game'] by blast
    have o': "oCounts game' = (if currPiece game = O_Piece then c else oCounts game)"
      and x': "xCounts game' = (if currPiece game = O_Piece then xCounts game else c)"
      and o2: "oCounts game2 = oCounts game'" and x2: "xCounts game2 = xCounts game'"
      and p2: "currPiece game2 = currPiece game"
      by (simp_all add: g' g2)
    have same: "(x, y) \<notin> corners \<longrightarrow>
            diags (oCounts game') = diags (oCounts game)
          \<and> diags (xCounts game') = diags (xCounts game)"
      using countPiece_diags [OF c] getDiag_corners [of x y] by (simp add: o' x')
    have dw2: "diagWin (if currPiece game2 = O_Piece then oCounts game2 else xCounts game2)
        (getDiag x y) = Some False"
      using dw by (cases "currPiece game = O_Piece") (simp_all add: o2 x2 p2)
    have "(res = OWin \<longrightarrow>
          arrayGet (rows (oCounts game')) x = Some boardSize
        \<or> arrayGet (cols (oCounts game')) y = Some boardSize)
     \<and> (res = XWin \<longrightarrow>
          arrayGet (rows (xCounts game')) x = Some boardSize
        \<or> arrayGet (cols (xCounts game')) x = Some boardSize)"
    proof (cases "res = OWin \<or> res = XWin")
      case True
      from checkGameOver_win [OF chk True dw2] show ?thesis
        by (cases "currPiece game2 = O_Piece") (simp_all add: o2 x2)
    next
      case False
      then show ?thesis by simp
    qed
    with same show ?thesis by simp
  qed
  from rest bounds dw show ?thesis by (simp add: corners_def)
qed

theorem diagonal_counters_only_at_corners_witness:
  "makeMoves (fst (startGame ''alice'' ''bob'' Map.empty)) [(''alice'', 0, 0), ('''', 1, 1)]
     = Some ([(None, Pending), (None, Pending)],
        \<lparr>board = [[O_Piece, B_Piece, B_Piece], [B_Piece, X_Piece, B_Piece],
                  [B_Piece, B_Piece, B_Piece]],
         currPiece = O_Piece, currPlayer = ''alice'', nextPlayer = '''',
         oCounts = \<lparr>rows = [1, 0, 0], cols = [1, 0, 0], diags = [1, 0]\<rparr>,
         xCounts = \<lparr>rows = [0, 1, 0], cols = [0, 1, 0], diags = [0, 0]\<rparr>,
         totalPieces = 2\<rparr>)
   \<and> makeMove
        \<lparr>board = [[O_Piece, B_Piece, B_Piece], [B_Piece, X_Piece, B_Piece],
                  [B_Piece, B_Piece, B_Piece]],
         currPiece = O_Piece, currPlayer = ''alice'', nextPlayer = '''',
         oCounts = \<lparr>rows = [1, 0, 0], cols = [1, 0, 0], diags = [1, 0]\<rparr>,
         xCounts = \<lparr>rows = [0, 1, 0], cols = [0, 1, 0], diags = [0, 0]\<rparr>,
         totalPieces = 2\<rparr> ''alice'' 0 1
     = Some ((None, Pending),
        \<lparr>board = [[O_Piece, O_Piece, B_Piece], [B_Piece, X_Piece, B_Piece],
                  [B_Piece, B_Piece, B_Piece]],
         currPiece = X_Piece, currPlayer = '''', nextPlayer = ''alice'',
         oCounts = \<lparr>rows = [2, 0, 0], cols = [1, 1, 0], diags = [1, 0]\<rparr>,
         xCounts = \<lparr>rows = [0, 1, 0], cols = [0, 1, 0], diags = [0, 0]\<rparr>,
         totalPieces = 3\<rparr>)
   \<and> (0::int, 1::int) \<notin> {(0, 0), (2, 2), (2, 0), (0, 2)}
   \<and> diagWin \<lparr>rows = [2, 0, 0], cols = [1, 1, 0], diags = [1, 0]\<rparr> (getDiag 0 1) = Some False"
proof -
  let ?g = "\<lparr>board = [[O_Piece, B_Piece, B_Piece], [B_Piece, X_Piece, B_Piece],
                  [B_Piece, B_Piece, B_Piece]],
         currPiece = O_Piece, currPlayer = ''alice'', nextPlayer = '''',
         oCounts = \<lparr>rows = [1, 0, 0], cols = [1, 0, 0], diags = [1, 0]\<rparr>,
         xCounts = \<lparr>rows = [0, 1, 0], cols = [0, 1, 0], diags = [0, 0]\<rparr>,
         totalPieces = 2\<rparr>"
  let ?g' = "\<lparr>board = [[O_Piece, O_Piece, B_Piece], [B_Piece, X_Piece, B_Piece],
                  [B_Piece, B_Piece, B_Piece]],
         currPiece = X_Piece, currPlayer = '''', nextPlayer = ''alice'',
         oCounts = \<lparr>rows = [2, 0, 0], cols = [1, 1, 0], diags = [1, 0]\<rparr>,
         xCounts = \<lparr>rows = [0, 1, 0], cols = [0, 1, 0], diags = [0, 0]\<rparr>,
         totalPieces = 3\<rparr>"
  have run: "makeMoves (fst (startGame ''alice'' ''bob'' Map.empty))
      [(''alice'', 0, 0), ('''', 1, 1)] = Some ([(None, Pending), (None, Pending)], ?g)"
    by code_simp
  have mv: "makeMove ?g ''alice'' 0 1 = Some ((None, Pending), ?g')"
    by code_simp
  from diagonal_counters_only_at_corners [OF run mv] run mv show ?thesis
    by simp
qed

end
